theory Spec2Isabelle
  imports Complex_Main
begin

section \<open>Raw input, validated values and validation errors\<close>

text \<open>
  The module \<^verbatim>\<open>backend/app/models/schemas.py\<close> declares twelve pydantic
  \<^verbatim>\<open>BaseModel\<close> classes and nothing else: a class is a list of annotated fields,
  and building it from a mapping (\<^verbatim>\<open>Model.model_validate(raw)\<close>, \<^verbatim>\<open>Model(**raw)\<close>)
  runs pydantic's validation of those fields. No class sets a \<^verbatim>\<open>model_config\<close> or
  declares a validator, so every class runs with pydantic's defaults: lax mode, unknown
  keys ignored, defaults not validated. The fields use \<^verbatim>\<open>pattern=\<close>, the keyword of
  pydantic 2. What follows is that validation, as a function of the declared fields,
  and then the twelve declarations themselves.

  The raw input is JSON-decoded data: \<^verbatim>\<open>None\<close>, booleans, integers, floats,
  strings, lists and dictionaries. A dictionary is an association list read with
  \<open>map_of\<close>. A float is a finite double, given as the real number it denotes, or one
  of \<^verbatim>\<open>inf\<close>, \<^verbatim>\<open>-inf\<close> and \<^verbatim>\<open>nan\<close> (the two zeros are not told apart, as Python's
  \<^verbatim>\<open>==\<close> does not).
\<close>

datatype pyfloat = Finite real | PosInf | NegInf | NaN

datatype raw =
    RNull
  | RBool bool
  | RInt int
  | RFloat pyfloat
  | RStr string
  | RList "raw list"
  | RDict "(string \<times> raw) list"

text \<open>A validated value; a model instance keeps its class name and its fields in
  declaration order.\<close>

datatype val =
    VNone
  | VBool bool
  | VInt int
  | VFloat pyfloat
  | VStr string
  | VList "val list"
  | VModel string "(string \<times> val) list"

text \<open>One entry of a \<^verbatim>\<open>ValidationError\<close>: the violated rule (pydantic's error
  type), the path of the field and the offending input.\<close>

datatype loc_item = Key string | Idx nat

datatype line_error = LineError (etype: string) (loc: "loc_item list") (input: raw)

type_synonym 'a result = "line_error list + 'a"

section \<open>String constraints\<close>

text \<open>The \<^verbatim>\<open>pattern\<close> of a string field is a regular expression, searched for in
  the value with pydantic's default engine, where \<^verbatim>\<open>^\<close> stands for the start of the
  text and \<^verbatim>\<open>$\<close> for its very end. The expressions are those the one pattern of the
  module is made of: literals, alternatives, sequences and the two anchors.\<close>

datatype regex =
    Lit string
  | Alt regex regex
  | Cat regex regex
  | StartText
  | EndText

text \<open>\<open>rmatch r b s\<close>: the ways \<open>r\<close> matches a prefix of \<open>s\<close>, each as the
  text left over; \<open>b\<close> tells whether the position is the start of the text.\<close>

fun rmatch :: "regex \<Rightarrow> bool \<Rightarrow> string \<Rightarrow> (bool \<times> string) list" where
  "rmatch (Lit l) b s =
     (if take (length l) s = l then [(b \<and> l = [], drop (length l) s)] else [])"
| "rmatch (Alt r1 r2) b s = rmatch r1 b s @ rmatch r2 b s"
| "rmatch (Cat r1 r2) b s = concat (map (\<lambda>(b', s'). rmatch r2 b' s') (rmatch r1 b s))"
| "rmatch StartText b s = (if b then [(b, s)] else [])"
| "rmatch EndText b s = (if s = [] then [(b, s)] else [])"

definition is_match :: "regex \<Rightarrow> string \<Rightarrow> bool" where
  "is_match r s = list_ex (\<lambda>i. rmatch r (i = 0) (drop i s) \<noteq> []) [0..<Suc (length s)]"

section \<open>The environment of a validation\<close>

text \<open>
  Two things that a validation uses are not written in the module. One is the clock:
  \<open>utcnow\<close> is what \<^verbatim>\<open>datetime.utcnow().isoformat()\<close> returns during the call. The
  other is the part of pydantic's lax parsing of numeric strings that differs between
  its versions and cannot be read off the module: every version reads an optional sign
  followed by decimal digits as the number so written, and that is defined below; what
  else a version reads as a number (surrounding blanks, digit-group underscores, a zero
  fraction; for floats fractions, exponents, \<^verbatim>\<open>inf\<close>, \<^verbatim>\<open>nan\<close>), and under which rule
  it rejects the rest, is the parameter \<open>lax_int\<close> resp. \<open>lax_float\<close>: the number, or
  the error type. Every statement below holds for every environment.
\<close>

record env =
  utcnow :: string
  lax_int :: "string \<Rightarrow> string + int"
  lax_float :: "string \<Rightarrow> string + pyfloat"

section \<open>Lax-mode conversions of scalars\<close>

text \<open>What each scalar annotation accepts among the JSON-decoded values, after
  pydantic's conversion table: \<^verbatim>\<open>str\<close> takes strings only; \<^verbatim>\<open>int\<close> takes integers,
  booleans, floats without a fraction part inside the 64-bit range and numeric strings;
  \<^verbatim>\<open>float\<close> takes floats, integers that a double can hold (rounded to the nearest
  double), booleans and numeric strings; \<^verbatim>\<open>bool\<close> takes booleans, the numbers 0 and 1
  and the strings that spell a truth value. A string constraint is checked after the
  type, \<^verbatim>\<open>min_length\<close> before \<^verbatim>\<open>pattern\<close>, and the first violation is the field's
  entry.\<close>

subsection \<open>Plain numerals\<close>

definition digit_val :: "char \<Rightarrow> nat option" where
  "digit_val = map_of (zip ''0123456789'' [0, 1, 2, 3, 4, 5, 6, 7, 8, 9])"

fun digits_val :: "nat \<Rightarrow> string \<Rightarrow> nat option" where
  "digits_val acc [] = Some acc"
| "digits_val acc (c # cs) =
     (case digit_val c of None \<Rightarrow> None | Some d \<Rightarrow> digits_val (10 * acc + d) cs)"

definition str_as_nat :: "string \<Rightarrow> nat option" where
  "str_as_nat s = (if s = [] then None else digits_val 0 s)"

text \<open>An optional sign and one or more decimal digits.\<close>

definition plain_numeral :: "string \<Rightarrow> int option" where
  "plain_numeral s =
     (case s of
        [] \<Rightarrow> None
      | c # r \<Rightarrow>
          if c = CHR ''-'' then map_option (\<lambda>n. - int n) (str_as_nat r)
          else if c = CHR ''+'' then map_option int (str_as_nat r)
          else map_option int (str_as_nat s))"

definition has_digit :: "string \<Rightarrow> bool" where
  "has_digit s = list_ex (\<lambda>c. digit_val c \<noteq> None) s"

subsection \<open>Integers and doubles\<close>

text \<open>\<^verbatim>\<open>float(n)\<close>: the double nearest to the integer \<open>n\<close>, ties to the even
  mantissa of 53 bits; no double when the result would reach \<open>2 ^ 1024\<close>
  (\<^verbatim>\<open>OverflowError\<close>).\<close>

fun bit_length :: "nat \<Rightarrow> nat" where
  "bit_length n = (if n = 0 then 0 else Suc (bit_length (n div 2)))"

declare bit_length.simps [simp del]

definition round_half_even :: "nat \<Rightarrow> nat \<Rightarrow> nat" where
  "round_half_even a s =
     (let q = a div 2 ^ s; r = a mod 2 ^ s in
      if 2 ^ s < 2 * r \<or> (2 * r = 2 ^ s \<and> odd q) then q + 1 else q)"

definition int_as_float :: "int \<Rightarrow> pyfloat option" where
  "int_as_float n =
     (let a = nat \<bar>n\<bar>; k = bit_length a in
      if k \<le> 53 then Some (Finite (of_int n))
      else
        let v = round_half_even a (k - 53) * 2 ^ (k - 53) in
        if 2 ^ 1024 \<le> v then None
        else Some (Finite (if n < 0 then - real v else real v)))"

text \<open>A float for an integer: it must be finite, without a fraction part, and
  strictly between \<open>- 2 ^ 63\<close> and \<open>2 ^ 63\<close>.\<close>

definition float_as_int :: "pyfloat \<Rightarrow> string + int" where
  "float_as_int f =
     (case f of
        Finite r \<Rightarrow>
          if of_int (floor r) \<noteq> r then Inl ''int_from_float''
          else if - (2 ^ 63) < r \<and> r < 2 ^ 63 then Inr (floor r)
          else Inl ''int_parsing_size''
      | _ \<Rightarrow> Inl ''finite_number'')"

subsection \<open>Strings for numbers and booleans\<close>

text \<open>A string for an integer: a plain numeral is the integer it writes; a string
  without any digit is no integer; the rest is the environment's (as is every string
  beyond Python's limit of 4300 characters).\<close>

definition str_as_int :: "env \<Rightarrow> string \<Rightarrow> string + int" where
  "str_as_int e s =
     (if 4300 < length s then lax_int e s
      else
        case plain_numeral s of
          Some n \<Rightarrow> Inr n
        | None \<Rightarrow> if has_digit s then lax_int e s else Inl ''int_parsing'')"

text \<open>A string for a float: a plain numeral is the double nearest to the integer it
  writes, an infinity when that integer is too large; the rest is the environment's.\<close>

definition str_as_float :: "env \<Rightarrow> string \<Rightarrow> string + pyfloat" where
  "str_as_float e s =
     (case plain_numeral s of
        Some n \<Rightarrow>
          Inr (case int_as_float n of
                 Some f \<Rightarrow> f
               | None \<Rightarrow> if n < 0 then NegInf else PosInf)
      | None \<Rightarrow> lax_float e s)"

definition ascii_lower :: "char \<Rightarrow> char" where
  "ascii_lower c =
     (case map_of (zip ''ABCDEFGHIJKLMNOPQRSTUVWXYZ'' ''abcdefghijklmnopqrstuvwxyz'') c of
        None \<Rightarrow> c | Some l \<Rightarrow> l)"

definition str_as_bool :: "string \<Rightarrow> bool option" where
  "str_as_bool s =
     (let l = map ascii_lower s in
      if s = ''0'' \<or> l \<in> set [''f'', ''n'', ''no'', ''off'', ''false''] then Some False
      else if s = ''1'' \<or> l \<in> set [''t'', ''y'', ''on'', ''yes'', ''true''] then Some True
      else None)"

definition int_as_bool :: "int \<Rightarrow> bool option" where
  "int_as_bool n = (if n = 0 then Some False else if n = 1 then Some True else None)"

subsection \<open>The four scalar validators\<close>

definition validate_str :: "nat option \<Rightarrow> regex option \<Rightarrow> loc_item list \<Rightarrow> raw \<Rightarrow> val result" where
  "validate_str min_length pattern l x =
     (case x of
        RStr s \<Rightarrow>
          if (case min_length of None \<Rightarrow> False | Some n \<Rightarrow> length s < n)
          then Inl [LineError ''string_too_short'' l x]
          else if (case pattern of None \<Rightarrow> False | Some r \<Rightarrow> \<not> is_match r s)
          then Inl [LineError ''string_pattern_mismatch'' l x]
          else Inr (VStr s)
      | _ \<Rightarrow> Inl [LineError ''string_type'' l x])"

definition validate_int :: "env \<Rightarrow> loc_item list \<Rightarrow> raw \<Rightarrow> val result" where
  "validate_int e l x =
     (case x of
        RInt n \<Rightarrow> Inr (VInt n)
      | RBool b \<Rightarrow> Inr (VInt (if b then 1 else 0))
      | RStr s \<Rightarrow>
          (case str_as_int e s of
             Inr n \<Rightarrow> Inr (VInt n)
           | Inl rule \<Rightarrow> Inl [LineError rule l x])
      | RFloat f \<Rightarrow>
          (case float_as_int f of
             Inr n \<Rightarrow> Inr (VInt n)
           | Inl rule \<Rightarrow> Inl [LineError rule l x])
      | _ \<Rightarrow> Inl [LineError ''int_type'' l x])"

definition validate_float :: "env \<Rightarrow> loc_item list \<Rightarrow> raw \<Rightarrow> val result" where
  "validate_float e l x =
     (case x of
        RFloat f \<Rightarrow> Inr (VFloat f)
      | RStr s \<Rightarrow>
          (case str_as_float e s of
             Inr f \<Rightarrow> Inr (VFloat f)
           | Inl rule \<Rightarrow> Inl [LineError rule l x])
      | RInt n \<Rightarrow>
          (case int_as_float n of
             Some f \<Rightarrow> Inr (VFloat f)
           | None \<Rightarrow> Inl [LineError ''float_type'' l x])
      | RBool b \<Rightarrow> Inr (VFloat (Finite (if b then 1 else 0)))
      | _ \<Rightarrow> Inl [LineError ''float_type'' l x])"

text \<open>For a boolean, an integer counts when it is a 64-bit one and a float when it
  is such an integer; then it must be 0 or 1.\<close>

definition validate_bool :: "loc_item list \<Rightarrow> raw \<Rightarrow> val result" where
  "validate_bool l x =
     (case x of
        RBool b \<Rightarrow> Inr (VBool b)
      | RStr s \<Rightarrow>
          (case str_as_bool s of
             Some b \<Rightarrow> Inr (VBool b)
           | None \<Rightarrow> Inl [LineError ''bool_parsing'' l x])
      | RInt n \<Rightarrow>
          if - (2 ^ 63) \<le> n \<and> n < 2 ^ 63 then
            (case int_as_bool n of
               Some b \<Rightarrow> Inr (VBool b)
             | None \<Rightarrow> Inl [LineError ''bool_parsing'' l x])
          else Inl [LineError ''bool_type'' l x]
      | RFloat f \<Rightarrow>
          (case float_as_int f of
             Inr n \<Rightarrow>
               (case int_as_bool n of
                  Some b \<Rightarrow> Inr (VBool b)
                | None \<Rightarrow> Inl [LineError ''bool_parsing'' l x])
           | Inl rule \<Rightarrow> Inl [LineError ''bool_type'' l x])
      | _ \<Rightarrow> Inl [LineError ''bool_type'' l x])"

section \<open>Schemas and their validation\<close>

text \<open>How a field is filled when the input has no such key: \<^verbatim>\<open>...\<close> (required),
  a default value, \<^verbatim>\<open>default_factory=list\<close>, or the factory
  \<^verbatim>\<open>lambda: datetime.utcnow().isoformat()\<close>, which reads the clock.\<close>

datatype default = Required | Default val | Factory_list | Factory_utcnow

datatype ftype =
    TStr "nat option" "regex option"
  | TInt
  | TFloat
  | TBool
  | TOptional ftype
  | TList ftype
  | TModel string "field list"
and field = Field (fname: string) (ftyp: ftype) (fdefault: default)

fun get_default :: "env \<Rightarrow> default \<Rightarrow> val option" where
  "get_default e Required = None"
| "get_default e (Default v) = Some v"
| "get_default e Factory_list = Some (VList [])"
| "get_default e Factory_utcnow = Some (VStr (utcnow e))"

text \<open>Errors of all parts are gathered: a failure does not stop the validation of
  the fields or items that follow.\<close>

fun collect :: "'a result \<Rightarrow> 'a list result \<Rightarrow> 'a list result" where
  "collect (Inr x) (Inr xs) = Inr (x # xs)"
| "collect (Inl e) (Inr xs) = Inl e"
| "collect (Inr x) (Inl es) = Inl es"
| "collect (Inl e) (Inl es) = Inl (e @ es)"

fun validate_type :: "env \<Rightarrow> ftype \<Rightarrow> loc_item list \<Rightarrow> raw \<Rightarrow> val result"
and validate_items :: "env \<Rightarrow> ftype \<Rightarrow> loc_item list \<Rightarrow> nat \<Rightarrow> raw list \<Rightarrow> val list result"
and validate_fields ::
  "env \<Rightarrow> field list \<Rightarrow> loc_item list \<Rightarrow> raw \<Rightarrow> (string \<times> raw) list \<Rightarrow> (string \<times> val) list result"
where
  "validate_type e (TStr min_length pattern) l x = validate_str min_length pattern l x"
| "validate_type e TInt l x = validate_int e l x"
| "validate_type e TFloat l x = validate_float e l x"
| "validate_type e TBool l x = validate_bool l x"
| "validate_type e (TOptional t) l x =
     (if x = RNull then Inr VNone else validate_type e t l x)"
| "validate_type e (TList t) l x =
     (case x of
        RList xs \<Rightarrow> map_sum id VList (validate_items e t l 0 xs)
      | _ \<Rightarrow> Inl [LineError ''list_type'' l x])"
| "validate_type e (TModel name fs) l x =
     (case x of
        RDict d \<Rightarrow> map_sum id (VModel name) (validate_fields e fs l x d)
      | _ \<Rightarrow> Inl [LineError ''model_type'' l x])"
| "validate_items e t l i [] = Inr []"
| "validate_items e t l i (x # xs) =
     collect (validate_type e t (l @ [Idx i]) x) (validate_items e t l (Suc i) xs)"
| "validate_fields e [] l x d = Inr []"
| "validate_fields e (Field name t dflt # fs) l x d =
     collect
       (map_sum id (Pair name)
          (case map_of d name of
             Some v \<Rightarrow> validate_type e t (l @ [Key name]) v
           | None \<Rightarrow>
               (case get_default e dflt of
                  Some v \<Rightarrow> Inr v
                | None \<Rightarrow> Inl [LineError ''missing'' (l @ [Key name]) x])))
       (validate_fields e fs l x d)"

text \<open>\<^verbatim>\<open>Model.model_validate(raw)\<close>: validation of a whole input, at the empty
  path.\<close>

definition validate :: "env \<Rightarrow> ftype \<Rightarrow> raw \<Rightarrow> val result" where
  "validate e schema x = validate_type e schema [] x"

text \<open>The outcome of one declared field alone: the step of the loop over the
  fields, for the field \<open>f\<close>.\<close>

definition validate_field ::
  "env \<Rightarrow> field \<Rightarrow> loc_item list \<Rightarrow> raw \<Rightarrow> (string \<times> raw) list \<Rightarrow> val result" where
  "validate_field e f l x d =
     (case map_of d (fname f) of
        Some v \<Rightarrow> validate_type e (ftyp f) (l @ [Key (fname f)]) v
      | None \<Rightarrow>
          (case get_default e (fdefault f) of
             Some v \<Rightarrow> Inr v
           | None \<Rightarrow> Inl [LineError ''missing'' (l @ [Key (fname f)]) x]))"

text \<open>The entries one declared field contributes to the error list.\<close>

definition field_errors ::
  "env \<Rightarrow> field \<Rightarrow> loc_item list \<Rightarrow> raw \<Rightarrow> (string \<times> raw) list \<Rightarrow> line_error list" where
  "field_errors e f l x d = (case validate_field e f l x d of Inl es \<Rightarrow> es | Inr v \<Rightarrow> [])"

text \<open>The entries one item of a list contributes to the error list.\<close>

definition item_errors ::
  "env \<Rightarrow> ftype \<Rightarrow> loc_item list \<Rightarrow> nat \<Rightarrow> raw \<Rightarrow> line_error list" where
  "item_errors e t l i y =
     (case validate_type e t (l @ [Idx i]) y of Inl es \<Rightarrow> es | Inr v \<Rightarrow> [])"

section \<open>The schemas of the module\<close>

abbreviation Str :: ftype where
  "Str \<equiv> TStr None None"

subsection \<open>Document schemas\<close>

definition TextProcessRequest :: ftype where
  "TextProcessRequest = TModel ''TextProcessRequest''
     [Field ''text'' (TStr (Some 1) None) Required,
      Field ''title'' (TOptional Str) (Default VNone)]"

definition DocumentUploadResponse :: ftype where
  "DocumentUploadResponse = TModel ''DocumentUploadResponse''
     [Field ''success'' TBool Required,
      Field ''document_id'' Str Required,
      Field ''title'' Str Required,
      Field ''chunks_created'' TInt Required,
      Field ''links_extracted'' TInt (Default (VInt 0)),
      Field ''images_extracted'' TInt (Default (VInt 0)),
      Field ''processing_time_ms'' TFloat Required]"

subsection \<open>Chat schemas\<close>

text \<open>The pattern \<^verbatim>\<open>^(user|assistant)$\<close>.\<close>

definition role_pattern :: regex where
  "role_pattern = Cat StartText (Cat (Alt (Lit ''user'') (Lit ''assistant'')) EndText)"

definition ChatMessage :: ftype where
  "ChatMessage = TModel ''ChatMessage''
     [Field ''role'' (TStr None (Some role_pattern)) Required,
      Field ''content'' Str Required]"

definition QueryRequest :: ftype where
  "QueryRequest = TModel ''QueryRequest''
     [Field ''query'' (TStr (Some 1) None) Required,
      Field ''session_id'' (TOptional Str) (Default VNone),
      Field ''chat_history'' (TOptional (TList ChatMessage)) Factory_list]"

definition SourceReference :: ftype where
  "SourceReference = TModel ''SourceReference''
     [Field ''id'' TInt Required,
      Field ''text'' Str Required,
      Field ''document'' Str Required,
      Field ''links'' (TList Str) Factory_list,
      Field ''images'' (TList Str) Factory_list,
      Field ''score'' TFloat Required,
      Field ''chunk_id'' (TOptional Str) (Default VNone),
      Field ''section'' (TOptional Str) (Default VNone)]"

definition TimingInfo :: ftype where
  "TimingInfo = TModel ''TimingInfo''
     [Field ''retrieval_ms'' TFloat Required,
      Field ''rerank_ms'' TFloat Required,
      Field ''llm_ms'' TFloat Required,
      Field ''total_ms'' TFloat Required]"

definition TokenUsage :: ftype where
  "TokenUsage = TModel ''TokenUsage''
     [Field ''prompt_tokens'' TInt Required,
      Field ''completion_tokens'' TInt Required,
      Field ''total_tokens'' TInt Required,
      Field ''estimated_cost_usd'' TFloat Required]"

definition QueryResponse :: ftype where
  "QueryResponse = TModel ''QueryResponse''
     [Field ''answer'' Str Required,
      Field ''sources'' (TList SourceReference) Factory_list,
      Field ''has_context'' TBool Required,
      Field ''general_answer'' (TOptional Str) (Default VNone),
      Field ''timing'' TimingInfo Required,
      Field ''token_usage'' (TOptional TokenUsage) (Default VNone),
      Field ''session_id'' (TOptional Str) (Default VNone)]"

subsection \<open>Retrieval internal schemas\<close>

definition ChunkMetadata :: ftype where
  "ChunkMetadata = TModel ''ChunkMetadata''
     [Field ''source'' Str Required,
      Field ''title'' Str Required,
      Field ''section'' (TOptional Str) (Default VNone),
      Field ''chunk_id'' Str Required,
      Field ''links'' (TList Str) Factory_list,
      Field ''images'' (TList Str) Factory_list,
      Field ''created_at'' Str Factory_utcnow]"

definition RetrievedChunk :: ftype where
  "RetrievedChunk = TModel ''RetrievedChunk''
     [Field ''chunk_id'' Str Required,
      Field ''text'' Str Required,
      Field ''score'' TFloat Required,
      Field ''metadata'' ChunkMetadata Required]"

definition RerankedChunk :: ftype where
  "RerankedChunk = TModel ''RerankedChunk''
     [Field ''chunk_id'' Str Required,
      Field ''text'' Str Required,
      Field ''score'' TFloat Required,
      Field ''original_score'' TFloat Required,
      Field ''metadata'' ChunkMetadata Required]"

subsection \<open>Health check\<close>

definition HealthResponse :: ftype where
  "HealthResponse = TModel ''HealthResponse''
     [Field ''status'' Str Required,
      Field ''qdrant_connected'' TBool Required,
      Field ''openai_configured'' TBool Required,
      Field ''cohere_configured'' TBool Required,
      Field ''timestamp'' Str Factory_utcnow]"

section \<open>Notions used in the statements\<close>

text \<open>The value found in the input at a path, when there is one.\<close>

fun raw_at :: "loc_item list \<Rightarrow> raw \<Rightarrow> raw option" where
  "raw_at [] x = Some x"
| "raw_at (Key k # p) x =
     (case x of
        RDict d \<Rightarrow> (case map_of d k of Some v \<Rightarrow> raw_at p v | None \<Rightarrow> None)
      | _ \<Rightarrow> None)"
| "raw_at (Idx i # p) x =
     (case x of
        RList xs \<Rightarrow> (if i < length xs then raw_at p (xs ! i) else None)
      | _ \<Rightarrow> None)"

text \<open>An entry reports its offending value at the path \<open>p\<close> of the input \<open>x\<close>: the
  value found there or, where the path names a key that the input lacks, a
  \<^verbatim>\<open>missing\<close> entry with the mapping that lacks it.\<close>

definition reports_at :: "loc_item list \<Rightarrow> raw \<Rightarrow> line_error \<Rightarrow> bool" where
  "reports_at p x e =
     (case raw_at p x of
        Some v \<Rightarrow> input e = v
      | None \<Rightarrow> etype e = ''missing'' \<and> p \<noteq> [] \<and> raw_at (butlast p) x = Some (input e))"

text \<open>
  The violations of an input, as the specification lists them: for every declared
  field, at every depth, and for every item of every list, the rule that the value
  supplied there violates, with the path and the value. The rule of a scalar is read
  off a table, one per annotation; \<open>None\<close> stands for no violation.
\<close>

definition str_rule :: "nat option \<Rightarrow> regex option \<Rightarrow> raw \<Rightarrow> string option" where
  "str_rule min_length pattern x =
     (case x of
        RStr s \<Rightarrow>
          if min_length \<noteq> None \<and> length s < the min_length then Some ''string_too_short''
          else if pattern \<noteq> None \<and> \<not> is_match (the pattern) s
            then Some ''string_pattern_mismatch''
          else None
      | _ \<Rightarrow> Some ''string_type'')"

definition int_rule :: "env \<Rightarrow> raw \<Rightarrow> string option" where
  "int_rule e x =
     (case x of
        RInt n \<Rightarrow> None
      | RBool b \<Rightarrow> None
      | RFloat f \<Rightarrow>
          (case f of
             Finite r \<Rightarrow>
               if r \<notin> \<int> then Some ''int_from_float''
               else if \<bar>r\<bar> < 2 ^ 63 then None
               else Some ''int_parsing_size''
           | _ \<Rightarrow> Some ''finite_number'')
      | RStr s \<Rightarrow> (case str_as_int e s of Inl rule \<Rightarrow> Some rule | Inr n \<Rightarrow> None)
      | _ \<Rightarrow> Some ''int_type'')"

definition float_rule :: "env \<Rightarrow> raw \<Rightarrow> string option" where
  "float_rule e x =
     (case x of
        RFloat f \<Rightarrow> None
      | RBool b \<Rightarrow> None
      | RInt n \<Rightarrow> if int_as_float n = None then Some ''float_type'' else None
      | RStr s \<Rightarrow> (case str_as_float e s of Inl rule \<Rightarrow> Some rule | Inr f \<Rightarrow> None)
      | _ \<Rightarrow> Some ''float_type'')"

definition bool_rule :: "raw \<Rightarrow> string option" where
  "bool_rule x =
     (case x of
        RBool b \<Rightarrow> None
      | RStr s \<Rightarrow> if str_as_bool s = None then Some ''bool_parsing'' else None
      | RInt n \<Rightarrow>
          if n = 0 \<or> n = 1 then None
          else if - (2 ^ 63) \<le> n \<and> n < 2 ^ 63 then Some ''bool_parsing''
          else Some ''bool_type''
      | RFloat f \<Rightarrow>
          (case f of
             Finite r \<Rightarrow>
               if r = 0 \<or> r = 1 then None
               else if r \<in> \<int> \<and> \<bar>r\<bar> < 2 ^ 63 then Some ''bool_parsing''
               else Some ''bool_type''
           | _ \<Rightarrow> Some ''bool_type'')
      | _ \<Rightarrow> Some ''bool_type'')"

definition rule_entry :: "string option \<Rightarrow> loc_item list \<Rightarrow> raw \<Rightarrow> line_error list" where
  "rule_entry rule l x = (case rule of None \<Rightarrow> [] | Some r \<Rightarrow> [LineError r l x])"

function spec_violations :: "env \<Rightarrow> ftype \<Rightarrow> loc_item list \<Rightarrow> raw \<Rightarrow> line_error list" where
  "spec_violations e (TStr min_length pattern) l x = rule_entry (str_rule min_length pattern x) l x"
| "spec_violations e TInt l x = rule_entry (int_rule e x) l x"
| "spec_violations e TFloat l x = rule_entry (float_rule e x) l x"
| "spec_violations e TBool l x = rule_entry (bool_rule x) l x"
| "spec_violations e (TOptional t) l x = (if x = RNull then [] else spec_violations e t l x)"
| "spec_violations e (TList t) l x =
     (case x of
        RList xs \<Rightarrow>
          concat (map (\<lambda>i. spec_violations e t (l @ [Idx i]) (xs ! i)) [0..<length xs])
      | _ \<Rightarrow> [LineError ''list_type'' l x])"
| "spec_violations e (TModel name fs) l x =
     (case x of
        RDict d \<Rightarrow>
          concat (map (\<lambda>f.
            case map_of d (fname f) of
              Some v \<Rightarrow> spec_violations e (ftyp f) (l @ [Key (fname f)]) v
            | None \<Rightarrow>
                if fdefault f = Required then [LineError ''missing'' (l @ [Key (fname f)]) x]
                else []) fs)
      | _ \<Rightarrow> [LineError ''model_type'' l x])"
  by pat_completeness auto
termination
proof (relation "measure (\<lambda>(e, t, l, x). size t)", goal_cases)
  case (4 e name fs l x d f v)
  have "size (ftyp f) < size f"
    by (cases f) simp
  moreover have "size f \<le> size_list size fs"
    using \<open>f \<in> set fs\<close> by (simp add: size_list_estimation')
  ultimately show ?case by simp
qed simp_all

text \<open>A source reference as a backend stage supplies it (id, text, document and
  score; the other fields left out), and the record it validates to.\<close>

definition source_raw :: "int \<times> string \<times> string \<times> pyfloat \<Rightarrow> raw" where
  "source_raw s =
     (case s of (i, t, doc, sc) \<Rightarrow>
        RDict [(''id'', RInt i), (''text'', RStr t), (''document'', RStr doc),
               (''score'', RFloat sc)])"

definition source_val :: "int \<times> string \<times> string \<times> pyfloat \<Rightarrow> val" where
  "source_val s =
     (case s of (i, t, doc, sc) \<Rightarrow>
        VModel ''SourceReference''
          [(''id'', VInt i), (''text'', VStr t), (''document'', VStr doc),
           (''links'', VList []), (''images'', VList []), (''score'', VFloat sc),
           (''chunk_id'', VNone), (''section'', VNone)])"

text \<open>The decimal numeral of a natural number, as Python's \<^verbatim>\<open>str\<close> writes it.\<close>

fun decimal :: "nat \<Rightarrow> string" where
  "decimal n =
     (if n < 10 then [''0123456789'' ! n]
      else decimal (n div 10) @ [''0123456789'' ! (n mod 10)])"

declare decimal.simps [simp del]

text \<open>An environment to evaluate examples in: a clock reading, and a library that
  reads no string as a number beyond the plain numerals.\<close>

definition example_env :: env where
  "example_env =
     \<lparr>utcnow = ''2024-01-01T00:00:00'',
      lax_int = (\<lambda>s. Inl ''int_parsing''),
      lax_float = (\<lambda>s. Inl ''float_parsing'')\<rparr>"

section \<open>Properties of the validation loop\<close>

text \<open>An error list is never empty, and every entry carries the path of the part it
  comes from and the input found there.\<close>

lemma collect_Inl: "collect a b = Inl es \<Longrightarrow> (\<And>e. a = Inl e \<Longrightarrow> e \<noteq> []) \<Longrightarrow> (\<And>e. b = Inl e \<Longrightarrow> e \<noteq> []) \<Longrightarrow> es \<noteq> []"
  by (cases a; cases b) auto

lemma collect_mem:
  "collect a b = Inl es \<Longrightarrow> e \<in> set es \<Longrightarrow>
     (\<exists>ea. a = Inl ea \<and> e \<in> set ea) \<or> (\<exists>eb. b = Inl eb \<and> e \<in> set eb)"
  by (cases a; cases b) auto

lemma scalar_entry:
  "validate_str m p l x = Inl es \<Longrightarrow> e \<in> set es \<Longrightarrow> loc e = l \<and> input e = x"
  "validate_int env l x = Inl es \<Longrightarrow> e \<in> set es \<Longrightarrow> loc e = l \<and> input e = x"
  "validate_float env l x = Inl es \<Longrightarrow> e \<in> set es \<Longrightarrow> loc e = l \<and> input e = x"
  "validate_bool l x = Inl es \<Longrightarrow> e \<in> set es \<Longrightarrow> loc e = l \<and> input e = x"
  by (auto simp: validate_str_def validate_int_def validate_float_def validate_bool_def
      split: raw.splits option.splits sum.splits if_splits)

lemma reports_at_Nil: "input e = x \<Longrightarrow> reports_at [] x e"
  by (simp add: reports_at_def)

lemma reports_at_Idx:
  "j < length xs \<Longrightarrow> reports_at p (xs ! j) e \<Longrightarrow> reports_at (Idx j # p) (RList xs) e"
  by (auto simp: reports_at_def split: option.splits)

lemma reports_at_Key:
  "map_of d k = Some v \<Longrightarrow> reports_at p v e \<Longrightarrow> reports_at (Key k # p) (RDict d) e"
  by (auto simp: reports_at_def split: option.splits)

lemma reports_at_missing:
  "map_of d k = None \<Longrightarrow> etype e = ''missing'' \<Longrightarrow> input e = RDict d \<Longrightarrow>
     reports_at [Key k] (RDict d) e"
  by (auto simp: reports_at_def split: option.splits)

lemma errors_located:
  "(\<forall>es e. validate_type env t l x = Inl es \<and> e \<in> set es \<longrightarrow>
      (\<exists>p. loc e = l @ p \<and> reports_at p x e))"
  "(\<forall>es e. validate_items env t l i xs = Inl es \<and> e \<in> set es \<longrightarrow>
      (\<exists>j p. j < length xs \<and> loc e = l @ Idx (i + j) # p \<and> reports_at p (xs ! j) e))"
  "x = RDict d \<longrightarrow> (\<forall>es e. validate_fields env fs l x d = Inl es \<and> e \<in> set es \<longrightarrow>
      (\<exists>f p. f \<in> set fs \<and> loc e = l @ Key (fname f) # p \<and> reports_at (Key (fname f) # p) x e))"
proof (induction env t l x and env t l i xs and env fs l x d
    rule: validate_type_validate_items_validate_fields.induct)
  case (1 env min_length pattern l x)
  then show ?case by (auto dest: scalar_entry intro: reports_at_Nil)
next
  case (2 env l x)
  then show ?case by (auto dest: scalar_entry intro: reports_at_Nil)
next
  case (3 env l x)
  then show ?case by (auto dest: scalar_entry intro: reports_at_Nil)
next
  case (4 env l x)
  then show ?case by (auto dest: scalar_entry intro: reports_at_Nil)
next
  case (5 env t l x)
  then show ?case by (auto split: if_splits)
next
  case (6 env t l x)
  show ?case
  proof (cases x)
    case (RList xs)
    show ?thesis
    proof (intro allI impI, elim conjE)
      fix es e
      assume a: "validate_type env (TList t) l x = Inl es" "e \<in> set es"
      from a RList have "validate_items env t l 0 xs = Inl es"
        by (auto simp: map_sum_def split: sum.splits)
      with 6 RList a obtain j p where
        jp: "j < length xs" "loc e = l @ Idx (0 + j) # p" "reports_at p (xs ! j) e"
        by blast
      then have "loc e = l @ (Idx j # p)" "reports_at (Idx j # p) x e"
        using RList by (auto intro: reports_at_Idx)
      then show "\<exists>p. loc e = l @ p \<and> reports_at p x e" by blast
    qed
  qed (auto intro: reports_at_Nil)
next
  case (7 env name fs l x)
  show ?case
  proof (cases x)
    case (RDict d)
    show ?thesis
    proof (intro allI impI, elim conjE)
      fix es e
      assume a: "validate_type env (TModel name fs) l x = Inl es" "e \<in> set es"
      from a RDict have "validate_fields env fs l x d = Inl es"
        by (auto simp: map_sum_def split: sum.splits)
      with 7 RDict a obtain f p where
        "loc e = l @ Key (fname f) # p" "reports_at (Key (fname f) # p) x e"
        by blast
      then show "\<exists>p. loc e = l @ p \<and> reports_at p x e" by blast
    qed
  qed (auto intro: reports_at_Nil)
next
  case (8 env t l i)
  then show ?case by simp
next
  case (9 env t l i x xs)
  show ?case
  proof (intro allI impI, elim conjE)
    fix es e
    assume a: "validate_items env t l i (x # xs) = Inl es" "e \<in> set es"
    then consider ea where "validate_type env t (l @ [Idx i]) x = Inl ea" "e \<in> set ea"
      | eb where "validate_items env t l (Suc i) xs = Inl eb" "e \<in> set eb"
      by (auto dest!: collect_mem)
    then show "\<exists>j p. j < length (x # xs) \<and> loc e = l @ Idx (i + j) # p \<and>
        reports_at p ((x # xs) ! j) e"
    proof cases
      case 1
      with 9 obtain p where "loc e = (l @ [Idx i]) @ p" "reports_at p x e" by blast
      then show ?thesis by (intro exI[of _ 0] exI[of _ p]) simp
    next
      case 2
      with 9 obtain j p where "j < length xs" "loc e = l @ Idx (Suc i + j) # p"
        "reports_at p (xs ! j) e" by blast
      then show ?thesis by (intro exI[of _ "Suc j"] exI[of _ p]) simp
    qed
  qed
next
  case (10 env l x d)
  then show ?case by simp
next
  case (11 env name t dflt fs l x d)
  show ?case
  proof (intro allI impI, elim conjE)
    fix es e
    assume x: "x = RDict d"
    assume a: "validate_fields env (Field name t dflt # fs) l x d = Inl es" "e \<in> set es"
    let ?hd = "case map_of d name of
             Some v \<Rightarrow> validate_type env t (l @ [Key name]) v
           | None \<Rightarrow>
               (case get_default env dflt of
                  Some v \<Rightarrow> Inr v
                | None \<Rightarrow> Inl [LineError ''missing'' (l @ [Key name]) x])"
    from a consider ea where "?hd = Inl ea" "e \<in> set ea"
      | eb where "validate_fields env fs l x d = Inl eb" "e \<in> set eb"
      by (auto dest!: collect_mem simp: map_sum_def split: sum.splits)
    then show "\<exists>f p. f \<in> set (Field name t dflt # fs) \<and> loc e = l @ Key (fname f) # p \<and>
        reports_at (Key (fname f) # p) x e"
    proof cases
      case 1
      show ?thesis
      proof (cases "map_of d name")
        case None
        with 1 have "e = LineError ''missing'' (l @ [Key name]) x"
          by (auto split: option.splits)
        with None x have "loc e = l @ Key name # []" "reports_at (Key name # []) x e"
          by (auto intro: reports_at_missing)
        then show ?thesis by (intro exI[of _ "Field name t dflt"] exI[of _ "[]"]) simp
      next
        case (Some v)
        with 1 have "validate_type env t (l @ [Key name]) v = Inl ea" by simp
        with 11(1)[OF Some] 1 obtain p where
          "loc e = (l @ [Key name]) @ p" "reports_at p v e" by blast
        with Some x have "loc e = l @ Key name # p" "reports_at (Key name # p) x e"
          by (auto intro: reports_at_Key)
        then show ?thesis by (intro exI[of _ "Field name t dflt"] exI[of _ p]) simp
      qed
    next
      case 2
      with 11(2) x obtain f p where "f \<in> set fs" "loc e = l @ Key (fname f) # p"
        "reports_at (Key (fname f) # p) x e" by blast
      then show ?thesis by auto
    qed
  qed
qed

lemma scalar_nonempty:
  "validate_str m p l x = Inl es \<Longrightarrow> es \<noteq> []"
  "validate_int env l x = Inl es \<Longrightarrow> es \<noteq> []"
  "validate_float env l x = Inl es \<Longrightarrow> es \<noteq> []"
  "validate_bool l x = Inl es \<Longrightarrow> es \<noteq> []"
  by (auto simp: validate_str_def validate_int_def validate_float_def validate_bool_def
      split: raw.splits option.splits sum.splits if_splits)

lemma errors_nonempty:
  "(\<forall>es. validate_type env t l x = Inl es \<longrightarrow> es \<noteq> [])"
  "(\<forall>es. validate_items env t l i xs = Inl es \<longrightarrow> es \<noteq> [])"
  "(\<forall>es. validate_fields env fs l x d = Inl es \<longrightarrow> es \<noteq> [])"
proof (induction env t l x and env t l i xs and env fs l x d
    rule: validate_type_validate_items_validate_fields.induct)
  case (6 env t l x)
  then show ?case by (cases x) (auto simp: map_sum_def split: sum.splits)
next
  case (7 env name fs l x)
  then show ?case by (cases x) (auto simp: map_sum_def split: sum.splits)
next
  case (9 env t l i x xs)
  then show ?case by (auto dest!: collect_Inl)
next
  case (11 env name t dflt fs l x d)
  then show ?case
    by (auto dest!: collect_Inl simp: map_sum_def split: sum.splits option.splits)
qed (auto dest: scalar_nonempty)

lemma validate_fields_Cons:
  "validate_fields env (f # fs) l x d =
     collect (map_sum id (Pair (fname f)) (validate_field env f l x d))
       (validate_fields env fs l x d)"
  by (cases f) (simp add: validate_field_def split: option.splits)

lemma validate_field_entry:
  assumes "validate_field env f l x d = Inl es"
  shows "es \<noteq> []" and "e \<in> set es \<Longrightarrow> \<exists>p. loc e = l @ Key (fname f) # p"
proof -
  show "es \<noteq> []"
    using assms errors_nonempty(1)
    by (auto simp: validate_field_def split: option.splits)
  show "\<exists>p. loc e = l @ Key (fname f) # p" if "e \<in> set es"
  proof (cases "map_of d (fname f)")
    case None
    with assms that show ?thesis
      by (auto simp: validate_field_def split: option.splits)
  next
    case (Some v)
    with assms have "validate_type env (ftyp f) (l @ [Key (fname f)]) v = Inl es"
      by (simp add: validate_field_def)
    with that errors_located(1) obtain p where "loc e = (l @ [Key (fname f)]) @ p"
      by blast
    then show ?thesis by simp
  qed
qed

lemma validate_fields_Inr:
  "validate_fields env fs l x d = Inr v \<Longrightarrow> f \<in> set fs \<Longrightarrow> field_errors env f l x d = []"
proof (induction fs arbitrary: v)
  case Nil
  then show ?case by simp
next
  case (Cons g gs)
  then show ?case
    by (cases "validate_field env g l x d"; cases "validate_fields env gs l x d")
       (auto simp: validate_fields_Cons field_errors_def)
qed

lemma validate_fields_Inl:
  "validate_fields env fs l x d = Inl errs \<Longrightarrow>
     errs = concat (map (\<lambda>f. field_errors env f l x d) fs)"
proof (induction fs arbitrary: errs)
  case Nil
  then show ?case by simp
next
  case (Cons g gs)
  show ?case
  proof (cases "validate_fields env gs l x d")
    case (Inl es)
    with Cons show ?thesis
      by (cases "validate_field env g l x d") (auto simp: validate_fields_Cons field_errors_def)
  next
    case (Inr v)
    then have "concat (map (\<lambda>f. field_errors env f l x d) gs) = []"
      by (auto dest: validate_fields_Inr)
    with Inr Cons.prems show ?thesis
      by (cases "validate_field env g l x d") (auto simp: validate_fields_Cons field_errors_def)
  qed
qed

text \<open>The pattern of \<open>role\<close> matches the two literals and nothing else.\<close>

lemma is_match_StartText: "is_match (Cat StartText r) s = (rmatch r True s \<noteq> [])"
  by (auto simp add: is_match_def list_ex_iff intro: bexI[of _ 0])

lemma take_drop_whole: "take (length l) s = l \<and> drop (length l) s = [] \<longleftrightarrow> s = l"
  by (metis append_take_drop_id append_Nil2 take_all_iff drop_eq_Nil order_refl)

lemma role_pattern_match: "is_match role_pattern s \<longleftrightarrow> s = ''user'' \<or> s = ''assistant''"
  unfolding role_pattern_def is_match_StartText
  using take_drop_whole[of "''user''" s] take_drop_whole[of "''assistant''" s]
  by (auto split: if_splits)

lemma validate_source: "validate_type env SourceReference l (source_raw s) = Inr (source_val s)"
  by (cases s) (simp add: SourceReference_def source_raw_def source_val_def
      validate_int_def validate_float_def validate_str_def)

lemma validate_sources:
  "validate_items env SourceReference l i (map source_raw ss) = Inr (map source_val ss)"
  by (induction ss arbitrary: i) (simp_all add: validate_source)

lemma validate_field_agree:
  "validate_field env f l x d = Inr a \<Longrightarrow> map_of d' (fname f) = map_of d (fname f) \<Longrightarrow>
     validate_field env f l x' d' = Inr a"
  by (auto simp: validate_field_def split: option.splits)

lemma validate_fields_agree:
  "validate_fields env fs l x d = Inr v \<Longrightarrow>
   \<forall>f\<in>set fs. map_of d' (fname f) = map_of d (fname f) \<Longrightarrow>
     validate_fields env fs l x' d' = Inr v \<and> map fst v = map fname fs"
proof (induction fs arbitrary: v)
  case Nil
  then show ?case by auto
next
  case (Cons g gs)
  from Cons.prems(1) obtain a w where
    a: "validate_field env g l x d = Inr a" and w: "validate_fields env gs l x d = Inr w"
    and v: "v = (fname g, a) # w"
    by (cases "validate_field env g l x d"; cases "validate_fields env gs l x d")
       (auto simp: validate_fields_Cons)
  from a Cons.prems(2) have "validate_field env g l x' d' = Inr a"
    by (auto intro: validate_field_agree)
  moreover from Cons.IH[OF w] Cons.prems(2)
  have "validate_fields env gs l x' d' = Inr w \<and> map fst w = map fname gs" by simp
  ultimately show ?case using v by (simp add: validate_fields_Cons)
qed

text \<open>Each scalar validator fails exactly with the rule of its table, and the
  validation of a type, of the items of a list and of the fields of a model yields the
  violations that the specification lists, all of them and in order.\<close>

lemma Ints_real_iff: "(r \<in> \<int>) = (\<exists>n. r = real_of_int n)"
  by (auto simp: Ints_def)

lemma float_as_int_Inr:
  "float_as_int f = Inr n \<longleftrightarrow> (\<exists>r. f = Finite r \<and> r \<in> \<int> \<and> \<bar>r\<bar> < 2 ^ 63 \<and> n = \<lfloor>r\<rfloor>)"
  by (cases f) (auto simp: float_as_int_def Ints_real_iff abs_less_iff)

lemma float_as_int_Inl:
  "float_as_int f = Inl rule \<longleftrightarrow>
     (case f of
        Finite r \<Rightarrow>
          if r \<notin> \<int> then rule = ''int_from_float''
          else \<not> \<bar>r\<bar> < 2 ^ 63 \<and> rule = ''int_parsing_size''
      | _ \<Rightarrow> rule = ''finite_number'')"
  by (cases f) (auto simp: float_as_int_def Ints_real_iff abs_less_iff)

lemma str_rule:
  "validate_str m p l x = Inl es \<Longrightarrow> es = rule_entry (str_rule m p x) l x"
  "validate_str m p l x = Inr v \<Longrightarrow> rule_entry (str_rule m p x) l x = []"
  by (auto simp: validate_str_def str_rule_def rule_entry_def
      split: raw.splits option.splits if_splits)

lemma int_rule:
  "validate_int env l x = Inl es \<Longrightarrow> es = rule_entry (int_rule env x) l x"
  "validate_int env l x = Inr v \<Longrightarrow> rule_entry (int_rule env x) l x = []"
  by (auto simp: validate_int_def int_rule_def rule_entry_def float_as_int_Inr float_as_int_Inl
      split: raw.splits option.splits sum.splits if_splits pyfloat.splits)

lemma float_rule:
  "validate_float env l x = Inl es \<Longrightarrow> es = rule_entry (float_rule env x) l x"
  "validate_float env l x = Inr v \<Longrightarrow> rule_entry (float_rule env x) l x = []"
  by (auto simp: validate_float_def float_rule_def rule_entry_def
      split: raw.splits option.splits sum.splits if_splits)

lemma floor_01:
  "r \<in> \<int> \<Longrightarrow> (\<lfloor>r\<rfloor> = 0) = (r = 0)"
  "r \<in> \<int> \<Longrightarrow> (\<lfloor>r\<rfloor> = 1) = (r = 1)" for r :: real
  by (auto elim!: Ints_cases)

lemma bool_rule_float:
  "(case float_as_int f of
      Inr n \<Rightarrow>
        (case int_as_bool n of
           Some b \<Rightarrow> Inr (VBool b)
         | None \<Rightarrow> Inl [LineError ''bool_parsing'' l x])
    | Inl rule \<Rightarrow> Inl [LineError ''bool_type'' l x]) =
   (case bool_rule (RFloat f) of
      None \<Rightarrow> Inr (VBool (f = Finite 1))
    | Some r \<Rightarrow> Inl [LineError r l x])"
proof (cases "float_as_int f")
  case (Inl rule)
  then have "bool_rule (RFloat f) = Some ''bool_type''"
    by (cases f) (auto simp: float_as_int_Inl bool_rule_def split: if_splits)
  with Inl show ?thesis by simp
next
  case (Inr n)
  then obtain r where r: "f = Finite r" "r \<in> \<int>" "\<bar>r\<bar> < 2 ^ 63" "n = \<lfloor>r\<rfloor>"
    by (auto simp: float_as_int_Inr)
  with Inr show ?thesis
    by (simp add: bool_rule_def int_as_bool_def floor_01)
qed

lemma bool_rule:
  "validate_bool l x = Inl es \<Longrightarrow> es = rule_entry (bool_rule x) l x"
  "validate_bool l x = Inr v \<Longrightarrow> rule_entry (bool_rule x) l x = []"
proof -
  have "validate_bool l x =
      (case bool_rule x of None \<Rightarrow> validate_bool l x | Some r \<Rightarrow> Inl [LineError r l x]) \<and>
      (bool_rule x = None \<longrightarrow> (\<exists>b. validate_bool l x = Inr (VBool b)))"
  proof (cases x)
    case (RFloat f)
    then show ?thesis
      by (simp add: validate_bool_def bool_rule_float split: option.splits)
  next
    case (RInt n)
    then show ?thesis
      by (auto simp: validate_bool_def bool_rule_def int_as_bool_def)
  next
    case (RStr s)
    then show ?thesis
      by (auto simp: validate_bool_def bool_rule_def split: option.splits)
  qed (simp_all add: validate_bool_def bool_rule_def)
  then show "validate_bool l x = Inl es \<Longrightarrow> es = rule_entry (bool_rule x) l x"
    and "validate_bool l x = Inr v \<Longrightarrow> rule_entry (bool_rule x) l x = []"
    by (cases "bool_rule x"; auto simp: rule_entry_def)+
qed

lemma collect_spec:
  assumes "\<And>es. a = Inl es \<Longrightarrow> es = A" and "\<And>v. a = Inr v \<Longrightarrow> A = []"
    and "\<And>es. b = Inl es \<Longrightarrow> es = B" and "\<And>v. b = Inr v \<Longrightarrow> B = []"
  shows "(\<forall>es. collect a b = Inl es \<longrightarrow> es = A @ B) \<and>
         (\<forall>v. collect a b = Inr v \<longrightarrow> A @ B = [])"
  by (cases a; cases b) (use assms in auto)

lemma upt_0_Suc_map: "map f [0..<Suc n] = f 0 # map (\<lambda>j. f (Suc j)) [0..<n]"
  by (simp add: upt_conv_Cons map_Suc_upt[symmetric] del: upt_Suc)

lemma validate_is_spec:
  "(\<forall>es. validate_type env t l x = Inl es \<longrightarrow> es = spec_violations env t l x) \<and>
   (\<forall>v. validate_type env t l x = Inr v \<longrightarrow> spec_violations env t l x = [])"
  "(\<forall>es. validate_items env t l i xs = Inl es \<longrightarrow>
      es = concat (map (\<lambda>j. spec_violations env t (l @ [Idx (i + j)]) (xs ! j)) [0..<length xs])) \<and>
   (\<forall>v. validate_items env t l i xs = Inr v \<longrightarrow>
      concat (map (\<lambda>j. spec_violations env t (l @ [Idx (i + j)]) (xs ! j)) [0..<length xs]) = [])"
  "(\<forall>es. validate_fields env fs l x d = Inl es \<longrightarrow>
      es = concat (map (\<lambda>f.
            case map_of d (fname f) of
              Some v \<Rightarrow> spec_violations env (ftyp f) (l @ [Key (fname f)]) v
            | None \<Rightarrow>
                if fdefault f = Required then [LineError ''missing'' (l @ [Key (fname f)]) x]
                else []) fs)) \<and>
   (\<forall>v. validate_fields env fs l x d = Inr v \<longrightarrow>
      concat (map (\<lambda>f.
            case map_of d (fname f) of
              Some v \<Rightarrow> spec_violations env (ftyp f) (l @ [Key (fname f)]) v
            | None \<Rightarrow>
                if fdefault f = Required then [LineError ''missing'' (l @ [Key (fname f)]) x]
                else []) fs) = [])"
proof (induction env t l x and env t l i xs and env fs l x d
    rule: validate_type_validate_items_validate_fields.induct)
  case (1 e min_length pattern l x)
  then show ?case using str_rule by simp
next
  case (2 e l x)
  then show ?case using int_rule by simp
next
  case (3 e l x)
  then show ?case using float_rule by simp
next
  case (4 e l x)
  then show ?case using bool_rule by simp
next
  case (5 e t l x)
  then show ?case by simp
next
  case (6 e t l x)
  show ?case
  proof (cases x)
    case (RList xs)
    with 6[OF RList] show ?thesis
      by (cases "validate_items e t l 0 xs") simp_all
  qed simp_all
next
  case (7 e name fs l x)
  show ?case
  proof (cases x)
    case (RDict d)
    show ?thesis
      using 7[OF RDict] unfolding RDict
      by (cases "validate_fields e fs l (RDict d) d") simp_all
  qed simp_all
next
  case (8 e t l i)
  then show ?case by simp
next
  case (9 e t l i x xs)
  have split: "concat (map (\<lambda>j. spec_violations e t (l @ [Idx (i + j)]) ((x # xs) ! j))
        [0..<length (x # xs)]) =
      spec_violations e t (l @ [Idx i]) x @
      concat (map (\<lambda>j. spec_violations e t (l @ [Idx (Suc i + j)]) (xs ! j)) [0..<length xs])"
    by (simp add: upt_0_Suc_map del: upt_Suc)
  show ?case
    unfolding split validate_items.simps
    by (rule collect_spec) (use 9 in blast)+
next
  case (10 e l x d)
  then show ?case by simp
next
  case (11 e name t dflt fs l x d)
  let ?h = "map_sum id (Pair name)
          (case map_of d name of
             Some v \<Rightarrow> validate_type e t (l @ [Key name]) v
           | None \<Rightarrow>
               (case get_default e dflt of
                  Some v \<Rightarrow> Inr v
                | None \<Rightarrow> Inl [LineError ''missing'' (l @ [Key name]) x]))"
  let ?H = "case map_of d name of
              Some v \<Rightarrow> spec_violations e t (l @ [Key name]) v
            | None \<Rightarrow>
                if dflt = Required then [LineError ''missing'' (l @ [Key name]) x]
                else []"
  have h: "(\<forall>es. ?h = Inl es \<longrightarrow> es = ?H) \<and> (\<forall>v. ?h = Inr v \<longrightarrow> ?H = [])"
  proof (cases "map_of d name")
    case None
    then show ?thesis by (cases dflt) simp_all
  next
    case (Some v)
    with 11(1)[OF Some] show ?thesis
      by (cases "validate_type e t (l @ [Key name]) v") simp_all
  qed
  show ?case
    unfolding validate_fields.simps list.map concat.simps
      field.sel
    by (rule collect_spec) (use h 11(2) in blast)+
qed

lemma item_errors_spec: "item_errors env t l j y = spec_violations env t (l @ [Idx j]) y"
  using validate_is_spec(1)[of env t "l @ [Idx j]" y]
  by (cases "validate_type env t (l @ [Idx j]) y") (simp_all add: item_errors_def)

text \<open>A decimal numeral is read back as the number it writes, and a number below
  \<open>2 ^ 53\<close> is a double.\<close>

lemma digit_val_iff: "digit_val c \<noteq> None \<longleftrightarrow> c \<in> set ''0123456789''"
  by (auto simp: digit_val_def)

lemma digit_val_digit: "k < 10 \<Longrightarrow> digit_val (''0123456789'' ! k) = Some k"
proof -
  assume "k < 10"
  then have "k = 0 \<or> k = 1 \<or> k = 2 \<or> k = 3 \<or> k = 4 \<or> k = 5 \<or> k = 6 \<or> k = 7 \<or> k = 8 \<or> k = 9"
    by arith
  then show ?thesis
    by (elim disjE) (simp_all add: digit_val_def)
qed

lemma digits_val_append:
  "digits_val acc (xs @ ys) =
     (case digits_val acc xs of None \<Rightarrow> None | Some a \<Rightarrow> digits_val a ys)"
  by (induction xs arbitrary: acc) (auto split: option.splits)

lemma decimal_not_Nil: "decimal n \<noteq> []"
  by (subst decimal.simps) simp

lemma digits_val_decimal: "digits_val 0 (decimal n) = Some n"
proof (induction n rule: decimal.induct)
  case (1 n)
  show ?case
  proof (cases "n < 10")
    case True
    then show ?thesis
      by (subst decimal.simps) (simp add: digit_val_digit)
  next
    case False
    with 1 have "digits_val 0 (decimal (n div 10)) = Some (n div 10)" by simp
    with False show ?thesis
      by (subst decimal.simps) (simp add: digits_val_append digit_val_digit)
  qed
qed

lemma decimal_digits: "c \<in> set (decimal n) \<Longrightarrow> c \<in> set ''0123456789''"
proof (induction n rule: decimal.induct)
  case (1 n)
  have nth: "''0123456789'' ! k \<in> set ''0123456789''" if "k < 10" for k
    using that by (intro nth_mem) simp
  show ?case
  proof (cases "n < 10")
    case True
    with 1(2) nth[of n] show ?thesis
      by (subst (asm) decimal.simps) simp
  next
    case False
    with 1 nth[of "n mod 10"] show ?thesis
      by (subst (asm) (2) decimal.simps) auto
  qed
qed

lemma plain_numeral_decimal: "plain_numeral (decimal n) = Some (int n)"
proof (cases "decimal n")
  case Nil
  then show ?thesis using decimal_not_Nil by simp
next
  case (Cons c r)
  then have "c \<in> set ''0123456789''"
    using decimal_digits[of c n] by simp
  then have "c \<noteq> CHR ''-''" "c \<noteq> CHR ''+''" by auto
  with Cons digits_val_decimal[of n] show ?thesis
    by (simp add: plain_numeral_def str_as_nat_def)
qed

lemma plain_numeral_minus_decimal: "plain_numeral (CHR ''-'' # decimal n) = Some (- int n)"
  by (simp add: plain_numeral_def str_as_nat_def decimal_not_Nil digits_val_decimal)

lemma digits_val_Some_digit: "digits_val acc (c # cs) = Some v \<Longrightarrow> digit_val c \<noteq> None"
  by (auto split: option.splits)

lemma str_as_nat_has_digit: "str_as_nat s = Some v \<Longrightarrow> has_digit s"
  by (cases s) (auto simp: str_as_nat_def has_digit_def split: if_splits option.splits)

lemma plain_numeral_has_digit: "plain_numeral s = Some v \<Longrightarrow> has_digit s"
proof (cases s)
  case Nil
  then show "plain_numeral s = Some v \<Longrightarrow> has_digit s" by (simp add: plain_numeral_def)
next
  case (Cons c r)
  assume "plain_numeral s = Some v"
  with Cons have "has_digit r \<or> has_digit s"
    by (auto simp: plain_numeral_def dest: str_as_nat_has_digit split: if_splits)
  with Cons show "has_digit s" by (auto simp: has_digit_def)
qed

lemma has_digit_iff: "has_digit s \<longleftrightarrow> set s \<inter> set ''0123456789'' \<noteq> {}"
  unfolding has_digit_def list_ex_iff digit_val_iff by blast

lemma bit_length_le: "n < 2 ^ k \<Longrightarrow> bit_length n \<le> k"
proof (induction k arbitrary: n)
  case 0
  then show ?case by (simp add: bit_length.simps)
next
  case (Suc k)
  show ?case
  proof (cases "n = 0")
    case True
    then show ?thesis by (simp add: bit_length.simps)
  next
    case False
    from Suc.prems have "n div 2 < 2 ^ k" by simp
    then have "bit_length (n div 2) \<le> k" by (rule Suc.IH)
    with False show ?thesis by (subst bit_length.simps) simp
  qed
qed

lemma int_as_float_exact:
  "n < 2 ^ 53 \<Longrightarrow> int_as_float (int n) = Some (Finite (real n))"
  "n < 2 ^ 53 \<Longrightarrow> int_as_float (- int n) = Some (Finite (- real n))"
  using bit_length_le[of n 53] by (simp_all add: int_as_float_def Let_def)

section \<open>The claims\<close>

text \<open>
  C1. For every schema (a model with any list of declared fields), every raw input
  mapping and every environment: when validation fails, it fails with one error list.
  The list is not empty, and it is the list of all violations of the input: for every
  declared field, for every item of every list and for every field of every nested
  model, the entry with the path, the violated rule (as the rule tables name it) and the
  offending value. It is the concatenation, in declaration order, of the entries of
  every declared field, so no violated field is left out after the first one; every
  field that fails alone has an entry whose path starts with that field's name; and
  every entry's value is the one found in the input at the entry's path (for a missing
  field, the mapping that lacks it). The same holds at every depth: whatever type is
  validated at whatever path, a failure carries exactly the violations of that value (it
  succeeds exactly when there is none), a list gathers the entries of all its items,
  and a nested model those of all its fields.
\<close>

theorem validation_error_lists_every_violation:
  assumes "validate env (TModel name fs) (RDict d) = Inl errs"
  shows "errs \<noteq> [] \<and>
     errs = spec_violations env (TModel name fs) [] (RDict d) \<and>
     errs = concat (map (\<lambda>f. field_errors env f [] (RDict d) d) fs) \<and>
     (\<forall>f\<in>set fs. (\<exists>es. validate_field env f [] (RDict d) d = Inl es) \<longrightarrow>
        (\<exists>e\<in>set errs. take 1 (loc e) = [Key (fname f)])) \<and>
     (\<forall>e\<in>set errs. reports_at (loc e) (RDict d) e) \<and>
     (\<forall>t l x es. validate_type env t l x = Inl es \<longrightarrow>
        es \<noteq> [] \<and> es = spec_violations env t l x) \<and>
     (\<forall>t l x v. validate_type env t l x = Inr v \<longrightarrow> spec_violations env t l x = []) \<and>
     (\<forall>t l xs es. validate_type env (TList t) l (RList xs) = Inl es \<longrightarrow>
        es = concat (map (\<lambda>j. item_errors env t l j (xs ! j)) [0..<length xs])) \<and>
     (\<forall>nm gs l dd es. validate_type env (TModel nm gs) l (RDict dd) = Inl es \<longrightarrow>
        es = concat (map (\<lambda>f. field_errors env f l (RDict dd) dd) gs))"
proof -
  from assms have fs: "validate_fields env fs [] (RDict d) d = Inl errs"
    by (auto simp: validate_def map_sum_def split: sum.splits)
  have 1: "errs \<noteq> []"
    using fs errors_nonempty(3) by blast
  have vt: "validate_type env (TModel name fs) [] (RDict d) = Inl errs"
    using assms by (simp only: validate_def)
  have 2: "errs = spec_violations env (TModel name fs) [] (RDict d)"
    using vt validate_is_spec(1) by blast
  have 3: "errs = concat (map (\<lambda>f. field_errors env f [] (RDict d) d) fs)"
    using fs by (rule validate_fields_Inl)
  have 4: "\<exists>e\<in>set errs. take 1 (loc e) = [Key (fname f)]"
    if f: "f \<in> set fs" and "\<exists>es. validate_field env f [] (RDict d) d = Inl es" for f
  proof -
    from that obtain es where es: "validate_field env f [] (RDict d) d = Inl es" by blast
    then obtain e where e: "e \<in> set es" using validate_field_entry(1)[OF es] by (cases es) auto
    with es have "take 1 (loc e) = [Key (fname f)]"
      using validate_field_entry(2) by fastforce
    moreover have "e \<in> set errs"
      using e es f by (subst 3) (auto simp: field_errors_def intro!: bexI[of _ f])
    ultimately show ?thesis by blast
  qed
  have 5: "reports_at (loc e) (RDict d) e" if "e \<in> set errs" for e
    using errors_located(1)[of env "TModel name fs" "[]" "RDict d"] assms that
    by (auto simp: validate_def)
  have 6: "es \<noteq> [] \<and> es = spec_violations env t l x"
    if "validate_type env t l x = Inl es" for t l x es
    using that errors_nonempty(1) validate_is_spec(1) by blast
  have 7: "spec_violations env t l x = []" if "validate_type env t l x = Inr v" for t l x v
    using that validate_is_spec(1) by blast
  have 8: "es = concat (map (\<lambda>j. item_errors env t l j (xs ! j)) [0..<length xs])"
    if "validate_type env (TList t) l (RList xs) = Inl es" for t l xs es
    using 6[OF that] by (simp add: item_errors_spec)
  have 9: "es = concat (map (\<lambda>f. field_errors env f l (RDict dd) dd) gs)"
    if "validate_type env (TModel nm gs) l (RDict dd) = Inl es" for nm gs l dd es
  proof -
    from that have "validate_fields env gs l (RDict dd) dd = Inl es"
      by (auto simp: map_sum_def split: sum.splits)
    then show ?thesis by (rule validate_fields_Inl)
  qed
  from 1 2 3 4 5 6 7 8 9 show ?thesis by blast
qed

theorem validation_error_lists_every_violation_witness:
  "validate example_env QueryRequest
     (RDict [(''query'', RStr []),
             (''chat_history'', RList
                [RDict [(''role'', RStr ''bot''), (''content'', RStr ''a'')],
                 RDict [(''role'', RStr ''root'')]])]) =
     Inl [LineError ''string_too_short'' [Key ''query''] (RStr []),
          LineError ''string_pattern_mismatch'' [Key ''chat_history'', Idx 0, Key ''role'']
            (RStr ''bot''),
          LineError ''string_pattern_mismatch'' [Key ''chat_history'', Idx 1, Key ''role'']
            (RStr ''root''),
          LineError ''missing'' [Key ''chat_history'', Idx 1, Key ''content'']
            (RDict [(''role'', RStr ''root'')])] \<and>
   [LineError ''string_too_short'' [Key ''query''] (RStr []),
    LineError ''string_pattern_mismatch'' [Key ''chat_history'', Idx 0, Key ''role'']
      (RStr ''bot''),
    LineError ''string_pattern_mismatch'' [Key ''chat_history'', Idx 1, Key ''role'']
      (RStr ''root''),
    LineError ''missing'' [Key ''chat_history'', Idx 1, Key ''content'']
      (RDict [(''role'', RStr ''root'')])] =
     spec_violations example_env QueryRequest []
       (RDict [(''query'', RStr []),
               (''chat_history'', RList
                  [RDict [(''role'', RStr ''bot''), (''content'', RStr ''a'')],
                   RDict [(''role'', RStr ''root'')]])])"
proof -
  have h: "validate example_env QueryRequest
     (RDict [(''query'', RStr []),
             (''chat_history'', RList
                [RDict [(''role'', RStr ''bot''), (''content'', RStr ''a'')],
                 RDict [(''role'', RStr ''root'')]])]) =
     Inl [LineError ''string_too_short'' [Key ''query''] (RStr []),
          LineError ''string_pattern_mismatch'' [Key ''chat_history'', Idx 0, Key ''role'']
            (RStr ''bot''),
          LineError ''string_pattern_mismatch'' [Key ''chat_history'', Idx 1, Key ''role'']
            (RStr ''root''),
          LineError ''missing'' [Key ''chat_history'', Idx 1, Key ''content'']
            (RDict [(''role'', RStr ''root'')])]"
    by (simp add: validate_def validate_str_def QueryRequest_def ChatMessage_def
        role_pattern_match)
  from validation_error_lists_every_violation [OF h [unfolded QueryRequest_def]] h
  show ?thesis
    by (simp only: QueryRequest_def)
qed

text \<open>
  C2, as the code has it. The schemas run in pydantic's default lax mode: a string
  supplied for a field annotated \<^verbatim>\<open>int\<close> or \<^verbatim>\<open>float\<close> is parsed, not rejected for
  being a string. A plain decimal numeral, with or without a minus sign, is accepted and
  stored as the number it writes: for \<^verbatim>\<open>int\<close> every numeral of at most 4300
  characters, for \<^verbatim>\<open>float\<close> every number below \<open>2 ^ 53\<close>, which a double holds
  exactly. A string for an \<^verbatim>\<open>int\<close> field that has no decimal digit in it (of at most
  4300 characters) fails with an \<^verbatim>\<open>int_parsing\<close> entry for that field.
\<close>

theorem numeric_strings_are_parsed:
  assumes "map_of d (fname f) = Some (RStr s)"
  shows
    "(ftyp f = TInt \<and> length s \<le> 4300 \<and> s = decimal n \<longrightarrow>
        validate_field env f l x d = Inr (VInt (int n))) \<and>
     (ftyp f = TInt \<and> length s \<le> 4300 \<and> s = CHR ''-'' # decimal n \<longrightarrow>
        validate_field env f l x d = Inr (VInt (- int n))) \<and>
     (ftyp f = TInt \<and> length s \<le> 4300 \<and> set s \<inter> set ''0123456789'' = {} \<longrightarrow>
        validate_field env f l x d =
          Inl [LineError ''int_parsing'' (l @ [Key (fname f)]) (RStr s)]) \<and>
     (ftyp f = TFloat \<and> n < 2 ^ 53 \<and> s = decimal n \<longrightarrow>
        validate_field env f l x d = Inr (VFloat (Finite (real n)))) \<and>
     (ftyp f = TFloat \<and> n < 2 ^ 53 \<and> s = CHR ''-'' # decimal n \<longrightarrow>
        validate_field env f l x d = Inr (VFloat (Finite (- real n))))"
proof (intro conjI impI; elim conjE)
  assume "ftyp f = TInt" "length s \<le> 4300" "s = decimal n"
  with assms show "validate_field env f l x d = Inr (VInt (int n))"
    by (simp add: validate_field_def validate_int_def str_as_int_def plain_numeral_decimal)
next
  assume "ftyp f = TInt" "length s \<le> 4300" "s = CHR ''-'' # decimal n"
  with assms show "validate_field env f l x d = Inr (VInt (- int n))"
    by (simp add: validate_field_def validate_int_def str_as_int_def
        plain_numeral_minus_decimal)
next
  assume a: "ftyp f = TInt" "length s \<le> 4300" "set s \<inter> set ''0123456789'' = {}"
  then have "\<not> has_digit s"
    by (simp only: has_digit_iff not_not)
  then have "plain_numeral s = None"
    using plain_numeral_has_digit by (cases "plain_numeral s") auto
  with a assms \<open>\<not> has_digit s\<close>
  show "validate_field env f l x d =
      Inl [LineError ''int_parsing'' (l @ [Key (fname f)]) (RStr s)]"
    by (simp add: validate_field_def validate_int_def str_as_int_def)
next
  assume "ftyp f = TFloat" "n < 2 ^ 53" "s = decimal n"
  with assms show "validate_field env f l x d = Inr (VFloat (Finite (real n)))"
    by (simp add: validate_field_def validate_float_def str_as_float_def
        plain_numeral_decimal int_as_float_exact)
next
  assume "ftyp f = TFloat" "n < 2 ^ 53" "s = CHR ''-'' # decimal n"
  with assms show "validate_field env f l x d = Inr (VFloat (Finite (- real n)))"
    by (simp add: validate_field_def validate_float_def str_as_float_def
        plain_numeral_minus_decimal int_as_float_exact)
qed

theorem numeric_strings_are_parsed_witness:
  "validate_field example_env (Field ''prompt_tokens'' TInt Required) []
      (RDict [(''prompt_tokens'', RStr ''12'')]) [(''prompt_tokens'', RStr ''12'')] =
     Inr (VInt 12) \<and>
   validate_field example_env (Field ''prompt_tokens'' TInt Required) []
      (RDict [(''prompt_tokens'', RStr ''abc'')]) [(''prompt_tokens'', RStr ''abc'')] =
     Inl [LineError ''int_parsing'' [Key ''prompt_tokens''] (RStr ''abc'')] \<and>
   validate_field example_env (Field ''retrieval_ms'' TFloat Required) []
      (RDict [(''retrieval_ms'', RStr ''-250'')]) [(''retrieval_ms'', RStr ''-250'')] =
     Inr (VFloat (Finite (- 250)))"
proof -
  have d12: "decimal 12 = ''12''" and d250: "decimal 250 = ''250''"
    by (simp_all add: decimal.simps)
  from
    numeric_strings_are_parsed [of "[(''prompt_tokens'', RStr ''12'')]"
      "Field ''prompt_tokens'' TInt Required" "''12''" 12 example_env "[]"
      "RDict [(''prompt_tokens'', RStr ''12'')]"]
    numeric_strings_are_parsed [of "[(''prompt_tokens'', RStr ''abc'')]"
      "Field ''prompt_tokens'' TInt Required" "''abc''" 0 example_env "[]"
      "RDict [(''prompt_tokens'', RStr ''abc'')]"]
    numeric_strings_are_parsed [of "[(''retrieval_ms'', RStr ''-250'')]"
      "Field ''retrieval_ms'' TFloat Required" "''-250''" 250 example_env "[]"
      "RDict [(''retrieval_ms'', RStr ''-250'')]"]
  show ?thesis
    by (simp add: d12 d250)
qed

text \<open>The claim as stated fails: the string \<^verbatim>\<open>"5"\<close> for
  \<^verbatim>\<open>TokenUsage.prompt_tokens\<close> is accepted and stored as the integer 5.\<close>

theorem string_for_number_counterexample:
  "validate example_env TokenUsage
     (RDict [(''prompt_tokens'', RStr ''5''), (''completion_tokens'', RInt 2),
             (''total_tokens'', RInt 7), (''estimated_cost_usd'', RFloat (Finite 0.5))]) =
   Inr (VModel ''TokenUsage''
          [(''prompt_tokens'', VInt 5), (''completion_tokens'', VInt 2),
           (''total_tokens'', VInt 7), (''estimated_cost_usd'', VFloat (Finite 0.5))])"
  by (simp add: validate_def validate_int_def validate_float_def TokenUsage_def
      str_as_int_def plain_numeral_def str_as_nat_def digit_val_def)

text \<open>
  C3, as the code has it. Validation of TextProcessRequest succeeds if and only if the
  input supplies a string \<open>text\<close> of length at least 1 and \<open>title\<close> is absent,
  \<^verbatim>\<open>None\<close> or a string; the input \<^verbatim>\<open>{"text": "", "title": "Doc"}\<close> fails with one
  entry, citing \<open>text\<close> and the rule \<^verbatim>\<open>string_too_short\<close>.
\<close>

theorem text_process_request_accepts:
  "((\<exists>v. validate env TextProcessRequest (RDict d) = Inr v) \<longleftrightarrow>
      (\<exists>s. map_of d ''text'' = Some (RStr s) \<and> 1 \<le> length s) \<and>
      (map_of d ''title'' = None \<or> map_of d ''title'' = Some RNull \<or>
       (\<exists>t. map_of d ''title'' = Some (RStr t)))) \<and>
   validate env TextProcessRequest (RDict [(''text'', RStr []), (''title'', RStr ''Doc'')]) =
     Inl [LineError ''string_too_short'' [Key ''text''] (RStr [])]"
  by (auto simp add: validate_def validate_str_def TextProcessRequest_def Suc_le_eq
      split: option.splits raw.splits if_splits)

theorem text_process_request_accepts_witness:
  "(\<exists>v. validate example_env TextProcessRequest
         (RDict [(''text'', RStr ''some text''), (''title'', RStr ''Doc'')]) = Inr v) \<and>
   validate example_env TextProcessRequest
     (RDict [(''text'', RStr []), (''title'', RStr ''Doc'')]) =
     Inl [LineError ''string_too_short'' [Key ''text''] (RStr [])]"
  using text_process_request_accepts [of example_env
      "[(''text'', RStr ''some text''), (''title'', RStr ''Doc'')]"]
  by simp

text \<open>The claim as stated fails: an input with a string \<open>text\<close> of length 3 and
  the integer 5 as \<open>title\<close> is rejected.\<close>

theorem text_process_request_counterexample:
  "map_of [(''text'', RStr ''abc''), (''title'', RInt 5)] ''text'' = Some (RStr ''abc'') \<and>
   1 \<le> length ''abc'' \<and>
   validate example_env TextProcessRequest
     (RDict [(''text'', RStr ''abc''), (''title'', RInt 5)]) =
     Inl [LineError ''string_type'' [Key ''title''] (RInt 5)]"
  by (simp add: validate_def validate_str_def TextProcessRequest_def)

text \<open>
  C4. Validation of ChatMessage succeeds exactly when \<open>role\<close> is the string
  \<^verbatim>\<open>user\<close> or \<^verbatim>\<open>assistant\<close> (and \<open>content\<close> is a string), and the record then keeps
  that very role: no other value is replaced by a default. The \<open>role\<close> field has an
  entry in the error list exactly when its value is neither of the two literals.
  \<^verbatim>\<open>{role: "user", content: "hi"}\<close> is accepted; \<^verbatim>\<open>{role: "moderator", content: "hi"}\<close>
  fails with a pattern violation on \<open>role\<close>.
\<close>

theorem chat_message_role:
  "(validate env ChatMessage (RDict d) = Inr v \<longleftrightarrow>
      (\<exists>r c. (r = ''user'' \<or> r = ''assistant'') \<and> map_of d ''role'' = Some (RStr r) \<and>
             map_of d ''content'' = Some (RStr c) \<and>
             v = VModel ''ChatMessage'' [(''role'', VStr r), (''content'', VStr c)])) \<and>
   ((\<exists>rule inp. LineError rule [Key ''role''] inp \<in> set (field_errors env
        (Field ''role'' (TStr None (Some role_pattern)) Required) [] (RDict d) d)) \<longleftrightarrow>
      map_of d ''role'' \<noteq> Some (RStr ''user'') \<and> map_of d ''role'' \<noteq> Some (RStr ''assistant'')) \<and>
   validate env ChatMessage (RDict [(''role'', RStr ''user''), (''content'', RStr ''hi'')]) =
     Inr (VModel ''ChatMessage'' [(''role'', VStr ''user''), (''content'', VStr ''hi'')]) \<and>
   validate env ChatMessage (RDict [(''role'', RStr ''moderator''), (''content'', RStr ''hi'')]) =
     Inl [LineError ''string_pattern_mismatch'' [Key ''role''] (RStr ''moderator'')]"
proof (intro conjI)
  show "validate env ChatMessage (RDict d) = Inr v \<longleftrightarrow>
      (\<exists>r c. (r = ''user'' \<or> r = ''assistant'') \<and> map_of d ''role'' = Some (RStr r) \<and>
             map_of d ''content'' = Some (RStr c) \<and>
             v = VModel ''ChatMessage'' [(''role'', VStr r), (''content'', VStr c)])"
    by (auto simp add: validate_def validate_str_def ChatMessage_def role_pattern_match
        split: option.splits raw.splits if_splits)
  show "(\<exists>rule inp. LineError rule [Key ''role''] inp \<in> set (field_errors env
        (Field ''role'' (TStr None (Some role_pattern)) Required) [] (RDict d) d)) \<longleftrightarrow>
      map_of d ''role'' \<noteq> Some (RStr ''user'') \<and> map_of d ''role'' \<noteq> Some (RStr ''assistant'')"
    by (auto simp add: field_errors_def validate_field_def validate_str_def role_pattern_match
        split: option.splits raw.splits if_splits)
  show "validate env ChatMessage (RDict [(''role'', RStr ''user''), (''content'', RStr ''hi'')]) =
     Inr (VModel ''ChatMessage'' [(''role'', VStr ''user''), (''content'', VStr ''hi'')])"
    by (simp add: validate_def validate_str_def ChatMessage_def role_pattern_match)
  show "validate env ChatMessage (RDict [(''role'', RStr ''moderator''), (''content'', RStr ''hi'')]) =
     Inl [LineError ''string_pattern_mismatch'' [Key ''role''] (RStr ''moderator'')]"
    by (simp add: validate_def validate_str_def ChatMessage_def role_pattern_match)
qed

theorem chat_message_role_witness:
  "validate example_env ChatMessage
     (RDict [(''role'', RStr ''assistant''), (''content'', RStr ''hello'')]) =
     Inr (VModel ''ChatMessage'' [(''role'', VStr ''assistant''), (''content'', VStr ''hello'')]) \<and>
   validate example_env ChatMessage
     (RDict [(''role'', RStr ''moderator''), (''content'', RStr ''hi'')]) =
     Inl [LineError ''string_pattern_mismatch'' [Key ''role''] (RStr ''moderator'')]"
  using chat_message_role [of example_env
      "[(''role'', RStr ''assistant''), (''content'', RStr ''hello'')]"
      "VModel ''ChatMessage'' [(''role'', VStr ''assistant''), (''content'', VStr ''hello'')]"]
  by simp

text \<open>
  C5. For QueryRequest, an input that supplies only a non-empty query is accepted, and
  the record has \<open>session_id\<close> equal to \<^verbatim>\<open>None\<close> and \<open>chat_history\<close> equal to the
  empty list.
\<close>

theorem query_request_defaults:
  "1 \<le> length q \<Longrightarrow>
   validate env QueryRequest (RDict [(''query'', RStr q)]) =
     Inr (VModel ''QueryRequest''
            [(''query'', VStr q), (''session_id'', VNone), (''chat_history'', VList [])])"
  by (simp add: validate_def validate_str_def QueryRequest_def Suc_le_eq)

theorem query_request_defaults_witness:
  "validate example_env QueryRequest (RDict [(''query'', RStr ''x'')]) =
     Inr (VModel ''QueryRequest''
            [(''query'', VStr ''x''), (''session_id'', VNone), (''chat_history'', VList [])])"
  using query_request_defaults [of "''x''" example_env] by simp

text \<open>
  C6, as the code has it. TokenUsage has no cross-field check: an input with any three
  integers as \<open>prompt_tokens\<close>, \<open>completion_tokens\<close> and \<open>total_tokens\<close> (and a
  float cost) is accepted and the record stores them unchanged, whether or not
  \<open>total_tokens\<close> is the sum of the other two.
\<close>

theorem token_usage_no_cross_check:
  "map_of d ''prompt_tokens'' = Some (RInt p) \<Longrightarrow>
   map_of d ''completion_tokens'' = Some (RInt c) \<Longrightarrow>
   map_of d ''total_tokens'' = Some (RInt t) \<Longrightarrow>
   map_of d ''estimated_cost_usd'' = Some (RFloat u) \<Longrightarrow>
   validate env TokenUsage (RDict d) =
     Inr (VModel ''TokenUsage''
            [(''prompt_tokens'', VInt p), (''completion_tokens'', VInt c),
             (''total_tokens'', VInt t), (''estimated_cost_usd'', VFloat u)])"
  by (simp add: validate_def validate_int_def validate_float_def TokenUsage_def)

theorem token_usage_no_cross_check_witness:
  "validate example_env TokenUsage
     (RDict [(''prompt_tokens'', RInt 3), (''completion_tokens'', RInt 4),
             (''total_tokens'', RInt 7), (''estimated_cost_usd'', RFloat (Finite 0.25))]) =
   Inr (VModel ''TokenUsage''
          [(''prompt_tokens'', VInt 3), (''completion_tokens'', VInt 4),
           (''total_tokens'', VInt 7), (''estimated_cost_usd'', VFloat (Finite 0.25))])"
  using token_usage_no_cross_check [of
      "[(''prompt_tokens'', RInt 3), (''completion_tokens'', RInt 4),
        (''total_tokens'', RInt 7), (''estimated_cost_usd'', RFloat (Finite 0.25))]"
      3 4 7 "Finite 0.25" example_env]
  by simp

text \<open>The claim as stated fails: a record with 1 prompt token, 2 completion tokens
  and a total of 10 is accepted.\<close>

theorem token_usage_counterexample:
  "validate example_env TokenUsage
     (RDict [(''prompt_tokens'', RInt 1), (''completion_tokens'', RInt 2),
             (''total_tokens'', RInt 10), (''estimated_cost_usd'', RFloat (Finite 0))]) =
   Inr (VModel ''TokenUsage''
          [(''prompt_tokens'', VInt 1), (''completion_tokens'', VInt 2),
           (''total_tokens'', VInt 10), (''estimated_cost_usd'', VFloat (Finite 0))]) \<and>
   (10 :: int) \<noteq> 1 + 2"
  by (simp add: validate_def validate_int_def validate_float_def TokenUsage_def)

text \<open>
  C7, as the code has it. DocumentUploadResponse declares no bound on its numbers: an
  input with any integers as \<open>chunks_created\<close>, \<open>links_extracted\<close> and
  \<open>images_extracted\<close> and any float as \<open>processing_time_ms\<close> is accepted and the
  record stores them unchanged, negative or not.
\<close>

theorem document_upload_response_no_sign_check:
  "map_of d ''success'' = Some (RBool b) \<Longrightarrow>
   map_of d ''document_id'' = Some (RStr doc) \<Longrightarrow>
   map_of d ''title'' = Some (RStr t) \<Longrightarrow>
   map_of d ''chunks_created'' = Some (RInt c) \<Longrightarrow>
   map_of d ''links_extracted'' = Some (RInt k) \<Longrightarrow>
   map_of d ''images_extracted'' = Some (RInt i) \<Longrightarrow>
   map_of d ''processing_time_ms'' = Some (RFloat ms) \<Longrightarrow>
   validate env DocumentUploadResponse (RDict d) =
     Inr (VModel ''DocumentUploadResponse''
            [(''success'', VBool b), (''document_id'', VStr doc), (''title'', VStr t),
             (''chunks_created'', VInt c), (''links_extracted'', VInt k),
             (''images_extracted'', VInt i), (''processing_time_ms'', VFloat ms)])"
  by (simp add: validate_def validate_int_def validate_float_def validate_str_def
      validate_bool_def DocumentUploadResponse_def)

theorem document_upload_response_no_sign_check_witness:
  "validate example_env DocumentUploadResponse
     (RDict [(''success'', RBool True), (''document_id'', RStr ''d1''), (''title'', RStr ''Doc''),
             (''chunks_created'', RInt 4), (''links_extracted'', RInt 0),
             (''images_extracted'', RInt (- 2)), (''processing_time_ms'', RFloat (Finite 12.5))]) =
   Inr (VModel ''DocumentUploadResponse''
          [(''success'', VBool True), (''document_id'', VStr ''d1''), (''title'', VStr ''Doc''),
           (''chunks_created'', VInt 4), (''links_extracted'', VInt 0),
           (''images_extracted'', VInt (- 2)), (''processing_time_ms'', VFloat (Finite 12.5))])"
  using document_upload_response_no_sign_check [of
      "[(''success'', RBool True), (''document_id'', RStr ''d1''), (''title'', RStr ''Doc''),
        (''chunks_created'', RInt 4), (''links_extracted'', RInt 0),
        (''images_extracted'', RInt (- 2)), (''processing_time_ms'', RFloat (Finite 12.5))]"
      True "''d1''" "''Doc''" 4 0 "- 2" "Finite 12.5" example_env]
  by simp

text \<open>The claim as stated fails: negative counts and a negative processing time are
  accepted.\<close>

theorem document_upload_response_counterexample:
  "validate example_env DocumentUploadResponse
     (RDict [(''success'', RBool True), (''document_id'', RStr ''d1''), (''title'', RStr ''Doc''),
             (''chunks_created'', RInt (- 1)), (''links_extracted'', RInt (- 2)),
             (''images_extracted'', RInt (- 3)), (''processing_time_ms'', RFloat (Finite (- 4.5)))]) =
   Inr (VModel ''DocumentUploadResponse''
          [(''success'', VBool True), (''document_id'', VStr ''d1''), (''title'', VStr ''Doc''),
           (''chunks_created'', VInt (- 1)), (''links_extracted'', VInt (- 2)),
           (''images_extracted'', VInt (- 3)), (''processing_time_ms'', VFloat (Finite (- 4.5)))])"
  by (simp add: validate_def validate_int_def validate_float_def validate_str_def
      validate_bool_def DocumentUploadResponse_def)

text \<open>
  C8, as the code has it. QueryResponse does not check the ids of its sources: an input
  whose sources carry any integers as ids is accepted, and the validated sources keep
  those ids, in input order, whether or not they are positive, distinct or sequential
  from 1.
\<close>

theorem source_ids_unconstrained:
  "validate env QueryResponse
     (RDict [(''answer'', RStr a), (''sources'', RList (map source_raw ss)),
             (''has_context'', RBool h),
             (''timing'', RDict [(''retrieval_ms'', RFloat t1), (''rerank_ms'', RFloat t2),
                                 (''llm_ms'', RFloat t3), (''total_ms'', RFloat t4)])]) =
   Inr (VModel ''QueryResponse''
          [(''answer'', VStr a), (''sources'', VList (map source_val ss)),
           (''has_context'', VBool h), (''general_answer'', VNone),
           (''timing'', VModel ''TimingInfo''
              [(''retrieval_ms'', VFloat t1), (''rerank_ms'', VFloat t2),
               (''llm_ms'', VFloat t3), (''total_ms'', VFloat t4)]),
           (''token_usage'', VNone), (''session_id'', VNone)])"
  by (simp add: validate_def QueryResponse_def TimingInfo_def validate_sources
      validate_float_def validate_str_def validate_bool_def)

theorem source_ids_unconstrained_witness:
  "validate example_env QueryResponse
     (RDict [(''answer'', RStr ''See [1].''),
             (''sources'', RList [source_raw (1, ''snippet'', ''a.txt'', Finite 0.5),
                                  source_raw (2, ''other'', ''b.txt'', Finite 0.25)]),
             (''has_context'', RBool True),
             (''timing'', RDict [(''retrieval_ms'', RFloat (Finite 1)), (''rerank_ms'', RFloat (Finite 2)),
                                 (''llm_ms'', RFloat (Finite 3)), (''total_ms'', RFloat (Finite 6))])]) =
   Inr (VModel ''QueryResponse''
          [(''answer'', VStr ''See [1].''),
           (''sources'', VList [source_val (1, ''snippet'', ''a.txt'', Finite 0.5),
                                source_val (2, ''other'', ''b.txt'', Finite 0.25)]),
           (''has_context'', VBool True), (''general_answer'', VNone),
           (''timing'', VModel ''TimingInfo''
              [(''retrieval_ms'', VFloat (Finite 1)), (''rerank_ms'', VFloat (Finite 2)),
               (''llm_ms'', VFloat (Finite 3)), (''total_ms'', VFloat (Finite 6))]),
           (''token_usage'', VNone), (''session_id'', VNone)])"
  using source_ids_unconstrained [of example_env "''See [1].''"
      "[(1, ''snippet'', ''a.txt'', Finite 0.5), (2, ''other'', ''b.txt'', Finite 0.25)]" True "Finite 1" "Finite 2" "Finite 3" "Finite 6"]
  by simp

text \<open>The claim as stated fails: a response whose sources have the ids 0, 7 and 7 is
  accepted.\<close>

theorem source_ids_counterexample:
  "validate example_env QueryResponse
     (RDict [(''answer'', RStr ''See [1].''),
             (''sources'', RList
                [RDict [(''id'', RInt 0), (''text'', RStr ''snippet''),
                        (''document'', RStr ''a.txt''), (''score'', RFloat (Finite 0.5))],
                 RDict [(''id'', RInt 7), (''text'', RStr ''other''),
                        (''document'', RStr ''b.txt''), (''score'', RFloat (Finite 0.25))],
                 RDict [(''id'', RInt 7), (''text'', RStr ''third''),
                        (''document'', RStr ''c.txt''), (''score'', RFloat (Finite 0.125))]]),
             (''has_context'', RBool True),
             (''timing'', RDict [(''retrieval_ms'', RFloat (Finite 1)), (''rerank_ms'', RFloat (Finite 2)),
                                 (''llm_ms'', RFloat (Finite 3)), (''total_ms'', RFloat (Finite 6))])]) =
   Inr (VModel ''QueryResponse''
          [(''answer'', VStr ''See [1].''),
           (''sources'', VList
              [VModel ''SourceReference''
                 [(''id'', VInt 0), (''text'', VStr ''snippet''), (''document'', VStr ''a.txt''),
                  (''links'', VList []), (''images'', VList []), (''score'', VFloat (Finite 0.5)),
                  (''chunk_id'', VNone), (''section'', VNone)],
               VModel ''SourceReference''
                 [(''id'', VInt 7), (''text'', VStr ''other''), (''document'', VStr ''b.txt''),
                  (''links'', VList []), (''images'', VList []), (''score'', VFloat (Finite 0.25)),
                  (''chunk_id'', VNone), (''section'', VNone)],
               VModel ''SourceReference''
                 [(''id'', VInt 7), (''text'', VStr ''third''), (''document'', VStr ''c.txt''),
                  (''links'', VList []), (''images'', VList []), (''score'', VFloat (Finite 0.125)),
                  (''chunk_id'', VNone), (''section'', VNone)]]),
           (''has_context'', VBool True), (''general_answer'', VNone),
           (''timing'', VModel ''TimingInfo''
              [(''retrieval_ms'', VFloat (Finite 1)), (''rerank_ms'', VFloat (Finite 2)),
               (''llm_ms'', VFloat (Finite 3)), (''total_ms'', VFloat (Finite 6))]),
           (''token_usage'', VNone), (''session_id'', VNone)])"
  by (simp add: validate_def QueryResponse_def TimingInfo_def SourceReference_def
      validate_int_def validate_float_def validate_str_def validate_bool_def)

text \<open>
  C9, as the code has it. For QueryRequest, an explicit \<^verbatim>\<open>None\<close> as \<open>chat_history\<close>
  is accepted and kept: the record's \<open>chat_history\<close> is \<^verbatim>\<open>None\<close>. Only an omitted
  \<open>chat_history\<close> takes the default, the empty list.
\<close>

theorem explicit_null_chat_history:
  "1 \<le> length q \<Longrightarrow>
   validate env QueryRequest (RDict [(''query'', RStr q), (''chat_history'', RNull)]) =
     Inr (VModel ''QueryRequest''
            [(''query'', VStr q), (''session_id'', VNone), (''chat_history'', VNone)]) \<and>
   validate env QueryRequest (RDict [(''query'', RStr q)]) =
     Inr (VModel ''QueryRequest''
            [(''query'', VStr q), (''session_id'', VNone), (''chat_history'', VList [])])"
  by (simp add: validate_def validate_str_def QueryRequest_def Suc_le_eq)

theorem explicit_null_chat_history_witness:
  "validate example_env QueryRequest
     (RDict [(''query'', RStr ''What is RAG?''), (''chat_history'', RNull)]) =
     Inr (VModel ''QueryRequest''
            [(''query'', VStr ''What is RAG?''), (''session_id'', VNone),
             (''chat_history'', VNone)])"
  using explicit_null_chat_history [of "''What is RAG?''" example_env]
  by simp

text \<open>The claim as stated fails: with an explicit \<^verbatim>\<open>None\<close> the record's
  \<open>chat_history\<close> is \<^verbatim>\<open>None\<close>, not the empty list.\<close>

theorem explicit_null_chat_history_counterexample:
  "validate example_env QueryRequest
     (RDict [(''query'', RStr ''x''), (''chat_history'', RNull)]) =
     Inr (VModel ''QueryRequest''
            [(''query'', VStr ''x''), (''session_id'', VNone), (''chat_history'', VNone)]) \<and>
   VNone \<noteq> VList []"
  by (simp add: validate_def validate_str_def QueryRequest_def)

text \<open>
  C10. For every schema (a model with any list of declared fields): when an input
  mapping is accepted, the same mapping with one more key that the schema does not
  declare is accepted with the same record; the record has exactly the declared fields,
  so the unknown key is not in it, and no error is raised for it.
\<close>

theorem unknown_fields_are_ignored:
  assumes "validate env (TModel name fs) (RDict d) = Inr v"
    and "k \<notin> set (map fname fs)"
  shows "validate env (TModel name fs) (RDict ((k, u) # d)) = Inr v \<and>
     (\<exists>flds. v = VModel name flds \<and> map fst flds = map fname fs \<and> k \<notin> set (map fst flds))"
proof -
  from assms(1) obtain flds where
    flds: "validate_fields env fs [] (RDict d) d = Inr flds" and v: "v = VModel name flds"
    by (auto simp: validate_def map_sum_def split: sum.splits)
  have "\<forall>f\<in>set fs. map_of ((k, u) # d) (fname f) = map_of d (fname f)"
    using assms(2) by auto
  from validate_fields_agree[OF flds this, of "RDict ((k, u) # d)"]
  have r: "validate_fields env fs [] (RDict ((k, u) # d)) ((k, u) # d) = Inr flds"
    and m: "map fst flds = map fname fs"
    by simp_all
  have k: "k \<notin> set (map fst flds)"
    using assms(2) unfolding m .
  have "validate env (TModel name fs) (RDict ((k, u) # d)) = Inr v"
    using r v by (simp add: validate_def)
  moreover have "\<exists>flds. v = VModel name flds \<and> map fst flds = map fname fs \<and>
      k \<notin> set (map fst flds)"
    using v m k by blast
  ultimately show ?thesis by blast
qed

theorem unknown_fields_are_ignored_witness:
  "validate example_env TextProcessRequest
     (RDict [(''comment'', RInt 1), (''text'', RStr ''abc'')]) =
   Inr (VModel ''TextProcessRequest'' [(''text'', VStr ''abc''), (''title'', VNone)])"
proof -
  have h: "validate example_env
       (TModel ''TextProcessRequest''
          [Field ''text'' (TStr (Some 1) None) Required,
           Field ''title'' (TOptional Str) (Default VNone)])
       (RDict [(''text'', RStr ''abc'')]) =
     Inr (VModel ''TextProcessRequest'' [(''text'', VStr ''abc''), (''title'', VNone)])"
    by (simp add: validate_def validate_str_def)
  have k: "''comment'' \<notin> set (map fname
       [Field ''text'' (TStr (Some 1) None) Required,
        Field ''title'' (TOptional Str) (Default VNone)])"
    by simp
  from unknown_fields_are_ignored [OF h k, of "RInt 1"] show ?thesis
    by (simp only: TextProcessRequest_def)
qed

end
